theory Spec2Isabelle
  imports Complex_Main "HOL-Library.Log_Nat"
begin

section \<open>Numbers, wei amounts and their conversions\<close>

text \<open>
  The allocation code of \<^verbatim>\<open>blockchainRequests.js\<close> mixes two kinds of values:
  JavaScript Numbers (IEEE 754 binary64) and \<^verbatim>\<open>ethers.BigNumber\<close> integers.
  A finite Number is a dyadic rational, so it is modelled by its exact value in
  \<^typ>\<open>rat\<close>; a BigNumber, and a hex string that denotes one, is modelled by the
  \<^typ>\<open>int\<close> it denotes. A decimal string is identified with the rational it denotes.
  \<^verbatim>\<open>NaN\<close> and the infinities are outside the model: \<^verbatim>\<open>toFixed\<close> prints them as
  words, which \<^verbatim>\<open>parseEther\<close> rejects, like the exponent form of a large Number below.
\<close>

type_synonym number = rat

datatype error =
    InvalidDecimal
  | InvalidHexString
  | NumericFault
  | CallFailed string
  | MaxRetryCountReached

definition pow2 :: "int \<Rightarrow> rat" where
  "pow2 e = (if 0 \<le> e then 2 ^ nat e else 1 / 2 ^ nat (- e))"

text \<open>
  \<open>ilog2 q\<close> is the binary exponent of a positive rational: the \<open>e\<close> with
  \<open>2 ^ e \<le> q < 2 ^ (e + 1)\<close>, read off the bit length of \<open>\<lfloor>q\<rfloor>\<close> when \<open>1 \<le> q\<close>
  and off that of \<open>\<lceil>1 / q\<rceil> - 1\<close> below.
\<close>

definition ilog2 :: "rat \<Rightarrow> int" where
  "ilog2 q =
     (if 1 \<le> q then int (floorlog 2 (nat \<lfloor>q\<rfloor>)) - 1
      else - int (floorlog 2 (nat (\<lceil>1 / q\<rceil> - 1))))"

text \<open>Rounding to the nearest integer, a tie going to the even neighbour.\<close>

definition round_half_even :: "rat \<Rightarrow> int" where
  "round_half_even x =
     (let f = \<lfloor>x\<rfloor>; r = x - of_int f
      in if r < 1 / 2 then f
         else if 1 / 2 < r then f + 1
         else if even f then f else f + 1)"

text \<open>
  \<open>round_double q\<close> is the binary64 value nearest to \<open>q\<close>: 53 significant bits,
  the unit in the last place never below \<open>2 ^ - 1074\<close> (the subnormal range). It is what
  \<^verbatim>\<open>parseFloat\<close> and a numeric literal give for a decimal numeral. Overflow to
  infinity (from \<open>2 ^ 1024\<close> on) is not modelled: the amounts that reach it here are
  below \<open>10 ^ 21\<close>.
\<close>

definition round_double :: "rat \<Rightarrow> number" where
  "round_double q =
     (if q = 0 then 0
      else let p = max (ilog2 \<bar>q\<bar> - 52) (- 1074)
           in sgn q * of_int (round_half_even (\<bar>q\<bar> / pow2 p)) * pow2 p)"

definition is_double :: "rat \<Rightarrow> bool" where
  "is_double q \<longleftrightarrow> round_double q = q"

text \<open>The literal \<^verbatim>\<open>1e-18\<close> of the source: the Number nearest to \<open>10 ^ - 18\<close>.\<close>

definition js_1e_18 :: number where
  "js_1e_18 = round_double (1 / 10 ^ 18)"

text \<open>
  \<^verbatim>\<open>x.toFixed(18)\<close> prints, for \<open>\<bar>x\<bar> < 10 ^ 21\<close>, the decimal string of \<open>n / 10 ^ 18\<close>
  where \<open>n\<close> is the integer nearest to \<open>x * 10 ^ 18\<close>: a negative \<open>x\<close> is negated first
  and gets its sign back, and of two nearest integers the larger is taken. That \<open>n\<close> is
  \<open>nearest_wei x\<close>. From \<open>10 ^ 21\<close> on \<^verbatim>\<open>toFixed\<close> prints the exponent form, which is
  no decimal string (\<open>None\<close>).
\<close>

definition nearest_wei :: "number \<Rightarrow> int" where
  "nearest_wei x =
     (if x < 0 then - \<lfloor>- x * 10 ^ 18 + 1 / 2\<rfloor> else \<lfloor>x * 10 ^ 18 + 1 / 2\<rfloor>)"

definition toFixed18 :: "number \<Rightarrow> rat option" where
  "toFixed18 x =
     (if 10 ^ 21 \<le> \<bar>x\<bar> then None else Some (of_int (nearest_wei x) / 10 ^ 18))"

text \<open>
  \<^verbatim>\<open>ethers.utils.parseEther\<close> on the output of \<^verbatim>\<open>toFixed(18)\<close>: the string has exactly
  18 decimals, so the product with \<open>10 ^ 18\<close> is the integer it returns.
\<close>

definition parseEther :: "rat option \<Rightarrow> error + int" where
  "parseEther s = (case s of None \<Rightarrow> Inl InvalidDecimal | Some d \<Rightarrow> Inr \<lfloor>d * 10 ^ 18\<rfloor>)"

text \<open>\<^verbatim>\<open>ethers.utils.formatEther\<close>: the exact decimal string of a wei amount in ether.\<close>

definition formatEther :: "int \<Rightarrow> rat" where
  "formatEther n = of_int n / 10 ^ 18"

definition parseFloat :: "rat \<Rightarrow> number" where
  "parseFloat d = round_double d"

text \<open>
  \<^verbatim>\<open>ethers.utils.hexStripZeros(b.toHexString())\<close>: the hex string of a BigNumber, kept as
  the integer it denotes. A negative BigNumber prints as \<^verbatim>\<open>-0x...\<close>, which
  \<^verbatim>\<open>hexStripZeros\<close> refuses.
\<close>

definition hexStripZeros_toHexString :: "int \<Rightarrow> error + int" where
  "hexStripZeros_toHexString b = (if b < 0 then Inl InvalidHexString else Inr b)"

section \<open>The allocation function \<^verbatim>\<open>processNfts\<close>\<close>

record nft =
  address :: string
  tokenId :: nat
  fee :: number

record allocation =
  totalFee :: int
  nftAddresses :: "string list"
  tokenIds :: "nat list"
  "values" :: "int list"
  creditUsed :: "int list"

text \<open>
  The state of the \<^verbatim>\<open>forEach\<close> loop: the accumulators and the running credit
  \<^verbatim>\<open>totalCreditUsed\<close>, a Number between iterations.
\<close>

record alloc_state =
  acc :: allocation
  credit :: number

text \<open>
  One iteration of the loop body (lines 825 to 851). The fee is converted with
  \<^verbatim>\<open>parseEther(nft.fee.toFixed(18))\<close>; the credit is converted the same way, compared and
  reduced as a BigNumber, and converted back to a Number with
  \<^verbatim>\<open>parseFloat(formatEther(...))\<close> for the next iteration.
\<close>

text \<open>
  The value of \<^verbatim>\<open>nftFeeBigNumber\<close> (line 831) for an asset: the fee that is set against the
  credit, zero for a fee below \<^verbatim>\<open>1e-18\<close>.
\<close>

definition creditEligibleFee :: "nft \<Rightarrow> int" where
  "creditEligibleFee n = (if fee n < js_1e_18 then 0 else nearest_wei (fee n))"

definition processNft :: "alloc_state \<Rightarrow> nft \<Rightarrow> error + alloc_state" where
  "processNft s n =
     (case parseEther (toFixed18 (fee n)) of
        Inl e \<Rightarrow> Inl e
      | Inr nftFeeWei \<Rightarrow>
         (case hexStripZeros_toHexString nftFeeWei of
            Inl e \<Rightarrow> Inl e
          | Inr v \<Rightarrow>
             (let nftFeeBigNumber = (if fee n < js_1e_18 then 0 else nftFeeWei)
               in case parseEther (toFixed18 (credit s)) of
                   Inl e \<Rightarrow> Inl e
                 | Inr totalCreditUsedBigNumber \<Rightarrow>
                    (let (used, remaining) =
                           (if nftFeeBigNumber \<le> totalCreditUsedBigNumber
                            then (nftFeeBigNumber, totalCreditUsedBigNumber - nftFeeBigNumber)
                            else (totalCreditUsedBigNumber, 0))
                     in Inr \<lparr>acc = \<lparr>totalFee = totalFee (acc s) + nftFeeWei,
                                     nftAddresses = nftAddresses (acc s) @ [address n],
                                     tokenIds = tokenIds (acc s) @ [tokenId n],
                                     values = values (acc s) @ [v],
                                     creditUsed = creditUsed (acc s) @ [used]\<rparr>,
                              credit = parseFloat (formatEther remaining)\<rparr>))))"

fun forEach :: "alloc_state \<Rightarrow> nft list \<Rightarrow> error + alloc_state" where
  "forEach s [] = Inr s"
| "forEach s (n # ns) =
     (case processNft s n of Inl e \<Rightarrow> Inl e | Inr s' \<Rightarrow> forEach s' ns)"

definition init_allocation :: allocation where
  "init_allocation =
     \<lparr>totalFee = 0, nftAddresses = [], tokenIds = [], values = [], creditUsed = []\<rparr>"

definition processNfts :: "nft list \<Rightarrow> number \<Rightarrow> error + allocation" where
  "processNfts nfts totalCreditUsed =
     (case forEach \<lparr>acc = init_allocation, credit = totalCreditUsed\<rparr> nfts of
        Inl e \<Rightarrow> Inl e
      | Inr s \<Rightarrow>
         (case hexStripZeros_toHexString (totalFee (acc s)) of
            Inl e \<Rightarrow> Inl e
          | Inr t \<Rightarrow> Inr ((acc s)\<lparr>totalFee := t\<rparr>)))"

section \<open>Checkout\<close>

text \<open>
  \<^verbatim>\<open>checkoutNFTs\<close> builds one transaction request and hands it to the external
  \<^verbatim>\<open>sendTransactions\<close>; the model returns the requests it builds. An argument of a
  contract call is kept as the JavaScript value the code passes to the ABI encoder: a Number
  or a BigNumber.
\<close>

datatype jsvalue = Number number | BigNumber int

datatype tx_data =
    Withdraw string nat jsvalue
  | WithdrawMultiple "string list" "nat list" "int list" string "jsvalue list"

record tx =
  tx_from :: string
  tx_to :: string
  tx_value :: int
  tx_data :: tx_data

text \<open>
  \<open>None\<close> for \<^verbatim>\<open>nfts\<close> is a missing argument (\<^verbatim>\<open>if (!nfts) return\<close>). With exactly one asset
  the branch of lines 888 to 904 pushes the Number \<^verbatim>\<open>totalCreditUsed\<close> itself as the credit
  argument of \<^verbatim>\<open>withdraw\<close>; every other length goes through \<open>processNfts\<close>.
\<close>

definition checkoutNFTs ::
  "string \<Rightarrow> string \<Rightarrow> nft list option \<Rightarrow> number \<Rightarrow> error + tx list option" where
  "checkoutNFTs proxyWallet vault nfts totalCreditUsed =
     (case nfts of
        None \<Rightarrow> Inr None
      | Some ns \<Rightarrow>
         (if length ns = 1 then
            (let creditUsed = [Number totalCreditUsed]; n = ns ! 0
             in case parseEther (toFixed18 (fee n)) of
                  Inl e \<Rightarrow> Inl e
                | Inr nftFeeWei \<Rightarrow>
                   (case hexStripZeros_toHexString nftFeeWei of
                      Inl e \<Rightarrow> Inl e
                    | Inr v \<Rightarrow>
                       Inr (Some [\<lparr>tx_from = proxyWallet, tx_to = vault, tx_value = v,
                                    tx_data = Withdraw (address n) (tokenId n) (creditUsed ! 0)\<rparr>])))
          else
            (case processNfts ns totalCreditUsed of
               Inl e \<Rightarrow> Inl e
             | Inr r \<Rightarrow>
                Inr (Some [\<lparr>tx_from = proxyWallet, tx_to = vault, tx_value = totalFee r,
                             tx_data = WithdrawMultiple (nftAddresses r) (tokenIds r) (values r)
                                         proxyWallet (map BigNumber (creditUsed r))\<rparr>]))))"

section \<open>Retrying a fetch: \<^verbatim>\<open>exponentialBackoff\<close>\<close>

text \<open>
  The fetch function is an effect, so it is given by its outcomes: \<open>fetchFn i\<close> is what
  the invocation made in iteration \<open>i\<close> of the loop does, an error thrown or a result, where
  \<open>None\<close> is a falsy result. The loop state counts the invocations and the waits and keeps
  the error printed by \<^verbatim>\<open>console.error\<close>. The length of a wait,
  \<^verbatim>\<open>baseDelay * (1 + Math.random())\<close>, is not modelled. The function returns a string or
  \<^verbatim>\<open>null\<close> and throws nothing: every error of the fetch is caught.
\<close>

record backoff =
  fetches :: nat
  waits :: nat
  logged :: "error option"

definition maxRetries :: nat where
  "maxRetries = 5"

function exponentialBackoff_loop ::
  "(nat \<Rightarrow> error + int option) \<Rightarrow> nat \<Rightarrow> backoff \<Rightarrow> rat option \<times> backoff" where
  "exponentialBackoff_loop fetchFn i b =
     (if i \<le> maxRetries then
        (case fetchFn i of
           Inr result \<Rightarrow>
             (Some (formatEther (case result of None \<Rightarrow> 0 | Some r \<Rightarrow> r)),
              b\<lparr>fetches := fetches b + 1\<rparr>)
         | Inl err \<Rightarrow>
             (if i < maxRetries
              then exponentialBackoff_loop fetchFn (i + 1)
                     (b\<lparr>fetches := fetches b + 1, waits := waits b + 1\<rparr>)
              else exponentialBackoff_loop fetchFn (i + 1)
                     (b\<lparr>fetches := fetches b + 1, logged := Some err\<rparr>)))
      else (None, b))"
  by pat_completeness auto
termination
  by (relation "measure (\<lambda>(fetchFn, i, b). Suc maxRetries - i)") auto

definition exponentialBackoff :: "(nat \<Rightarrow> error + int option) \<Rightarrow> rat option \<times> backoff" where
  "exponentialBackoff fetchFn =
     exponentialBackoff_loop fetchFn 0 \<lparr>fetches = 0, waits = 0, logged = None\<rparr>"

section \<open>The walks over the asset index\<close>

text \<open>
  The index and the contracts are outside the program. A \<open>chain\<close> gives their answers:
  the list \<^verbatim>\<open>ownedNfts\<close> of \<^verbatim>\<open>alchemy.nft.getNftsForOwner\<close>, and for each read-only
  call made through \<^verbatim>\<open>CustomContract.callWithRetry\<close> (whose source is not part of
  \<^verbatim>\<open>blockchainRequests.js\<close>) either the error it throws or the BigNumber it returns.
  Every function below returns the calls it made, in order, next to its result.
\<close>

datatype call =
    GetPrice string nat
  | GetValue string nat
  | GetTokenId string nat
  | GetLockedTill int

record owned_nft =
  contract :: string
  token :: nat

record chain =
  getNftsForOwner :: "string \<Rightarrow> error + owned_nft list"
  callWithRetry :: "call \<Rightarrow> error + int"

text \<open>
  The part of \<^verbatim>\<open>repackageMetadata\<close> that touches the chain: the price and value reads and
  the fields derived from them. The attributes, the image URI rewrite and the \<^verbatim>\<open>uuid\<close>
  (address followed by token id) are computed from these without a further call and are left
  out.
\<close>

record metadata =
  m_address :: string
  m_tokenId :: nat
  m_price :: rat
  m_value :: rat
  zzVaulted :: bool

definition repackageMetadata :: "chain \<Rightarrow> owned_nft \<Rightarrow> call list \<times> (error + metadata)" where
  "repackageMetadata env n =
     (let c1 = GetPrice (contract n) (token n)
      in case callWithRetry env c1 of
           Inl e \<Rightarrow> ([c1], Inl e)
         | Inr p \<Rightarrow>
            (let price = formatEther p; c2 = GetValue (contract n) (token n)
             in case callWithRetry env c2 of
                  Inl e \<Rightarrow> ([c1, c2], Inl e)
                | Inr v \<Rightarrow>
                   (let val = formatEther v
                    in ([c1, c2],
                        Inr \<lparr>m_address = contract n, m_tokenId = token n, m_price = price,
                             m_value = val, zzVaulted = (price \<noteq> 0 \<or> val \<noteq> 0)\<rparr>))))"

text \<open>\<^verbatim>\<open>BigNumber.toNumber\<close> throws outside the safe integer range.\<close>

definition toNumber :: "int \<Rightarrow> error + int" where
  "toNumber b = (if \<bar>b\<bar> < 2 ^ 53 then Inr b else Inl NumericFault)"

text \<open>
  The annotation of one item, written out twice in the source (lines 651 to 666 and 708 to
  723): the metadata, the custody identifier of the asset, and the lock expiry read for that
  identifier.
\<close>

definition annotate :: "chain \<Rightarrow> owned_nft \<Rightarrow> call list \<times> (error + metadata \<times> int)" where
  "annotate env n =
     (case repackageMetadata env n of
        (cs, Inl e) \<Rightarrow> (cs, Inl e)
      | (cs, Inr metaData) \<Rightarrow>
         (let c3 = GetTokenId (m_address metaData) (m_tokenId metaData)
          in case callWithRetry env c3 of
               Inl e \<Rightarrow> (cs @ [c3], Inl e)
             | Inr custodyId \<Rightarrow>
                (let c4 = GetLockedTill custodyId
                 in case callWithRetry env c4 of
                      Inl e \<Rightarrow> (cs @ [c3, c4], Inl e)
                    | Inr lockedTill \<Rightarrow>
                       (case toNumber lockedTill of
                          Inl e \<Rightarrow> (cs @ [c3, c4], Inl e)
                        | Inr rentEndTime \<Rightarrow> (cs @ [c3, c4], Inr (metaData, rentEndTime))))))"

subsection \<open>\<^verbatim>\<open>getWalletNfts\<close>: one page of classified items\<close>

definition pageSize :: nat where
  "pageSize = 12"

text \<open>
  \<^verbatim>\<open>Math.ceil(count / pageSize)\<close> on a positive count, in integer arithmetic (the quotient
  of two such integers is computed by the Number division well within its precision).
\<close>

definition page_of :: "nat \<Rightarrow> nat" where
  "page_of count = (count + pageSize - 1) div pageSize"

record page_walk =
  count :: nat
  deposits :: "metadata list"
  rentals :: "(metadata \<times> int) list"
  calls :: "call list"

text \<open>
  The \<^verbatim>\<open>for\<close> loop of lines 648 to 679. The annotation is inside the test on the page of
  the item; the \<^verbatim>\<open>break\<close> is the branch that returns without looking at the rest.
\<close>

fun getWalletNfts_loop ::
  "chain \<Rightarrow> nat \<Rightarrow> page_walk \<Rightarrow> owned_nft list \<Rightarrow> page_walk \<times> error option" where
  "getWalletNfts_loop env page w [] = (w, None)"
| "getWalletNfts_loop env page w (n # rest) =
     (let w1 = w\<lparr>count := count w + 1\<rparr>
      in if page_of (count w1) = page then
           (case annotate env n of
              (cs, Inl e) \<Rightarrow> (w1\<lparr>calls := calls w1 @ cs\<rparr>, Some e)
            | (cs, Inr (metaData, rentEndTime)) \<Rightarrow>
               (let w2 = (if rentEndTime = 0
                          then w1\<lparr>deposits := deposits w1 @ [metaData], calls := calls w1 @ cs\<rparr>
                          else w1\<lparr>rentals := rentals w1 @ [(metaData, rentEndTime)],
                                  calls := calls w1 @ cs\<rparr>)
                in if length (deposits w2) + length (rentals w2) = pageSize then (w2, None)
                   else getWalletNfts_loop env page w2 rest))
         else getWalletNfts_loop env page w1 rest)"

text \<open>
  The two shapes of the result: the array \<^verbatim>\<open>[[], []]\<close> of the guard in line 631 and the
  object \<^verbatim>\<open>{ rentals, deposits }\<close> of line 680.
\<close>

datatype wallet_nfts =
    ArrayOfArrays "metadata list list"
  | RentalsDeposits "(metadata \<times> int) list" "metadata list"

text \<open>An owner address is a string or missing; the falsy ones are the missing and the empty one.\<close>

definition falsy :: "string option \<Rightarrow> bool" where
  "falsy a = (a = None \<or> a = Some [])"

definition getWalletNfts ::
  "chain \<Rightarrow> string option \<Rightarrow> nat \<Rightarrow> call list \<times> (error + wallet_nfts)" where
  "getWalletNfts env proxyWallet page =
     (if falsy proxyWallet then ([], Inr (ArrayOfArrays [[], []]))
      else case getNftsForOwner env (the proxyWallet) of
             Inl e \<Rightarrow> ([], Inl e)
           | Inr ownedNfts \<Rightarrow>
              (case getWalletNfts_loop env page
                      \<lparr>count = 0, deposits = [], rentals = [], calls = []\<rparr> ownedNfts of
                 (w, Some e) \<Rightarrow> (calls w, Inl e)
               | (w, None) \<Rightarrow> (calls w, Inr (RentalsDeposits (rentals w) (deposits w)))))"

text \<open>
  What a caller gets from \<^verbatim>\<open>const { rentals, deposits } = ...\<close>: the two properties, or
  \<^verbatim>\<open>undefined\<close> (\<open>None\<close>) where the value has no such property, as an array has none.
\<close>

fun destructure ::
  "wallet_nfts \<Rightarrow> (metadata \<times> int) list option \<times> metadata list option" where
  "destructure (ArrayOfArrays xs) = (None, None)"
| "destructure (RentalsDeposits r d) = (Some r, Some d)"

subsection \<open>\<^verbatim>\<open>getTotalWalletNfts\<close>: counting the whole index\<close>

text \<open>
  The \<^verbatim>\<open>for\<close> loop of lines 707 to 729. The two counters are the variables declared before
  the \<^verbatim>\<open>while\<close> loop (lines 691 and 692), so an error leaves them as they are at that item.
\<close>

fun count_loop :: "chain \<Rightarrow> nat \<Rightarrow> nat \<Rightarrow> owned_nft list \<Rightarrow> nat \<times> nat \<times> error option" where
  "count_loop env rentedCount ownedCount [] = (rentedCount, ownedCount, None)"
| "count_loop env rentedCount ownedCount (n # rest) =
     (case snd (annotate env n) of
        Inl e \<Rightarrow> (rentedCount, ownedCount, Some e)
      | Inr (metaData, rentEndTime) \<Rightarrow>
         (if rentEndTime = 0 then count_loop env rentedCount (ownedCount + 1) rest
          else count_loop env (rentedCount + 1) ownedCount rest))"

text \<open>The body of the \<^verbatim>\<open>try\<close>: fetch the index, then count.\<close>

definition try_count :: "chain \<Rightarrow> string \<Rightarrow> nat \<Rightarrow> nat \<Rightarrow> nat \<times> nat \<times> error option" where
  "try_count env walletAddress rentedCount ownedCount =
     (case getNftsForOwner env walletAddress of
        Inl e \<Rightarrow> (rentedCount, ownedCount, Some e)
      | Inr ownedNfts \<Rightarrow> count_loop env rentedCount ownedCount ownedNfts)"

definition initialDelay :: nat where
  "initialDelay = 1000"

record total_walk =
  retryCount :: nat
  rentedCount :: nat
  ownedCount :: nat
  slept :: "nat list"

text \<open>
  The \<^verbatim>\<open>while (true)\<close> loop of lines 694 to 740. The chain may answer differently on each
  pass: \<open>envs k\<close> is the chain as seen by the pass made with \<^verbatim>\<open>retryCount\<close> equal to \<open>k\<close>.
  \<open>slept\<close> lists the delays passed to \<^verbatim>\<open>sleep\<close>, in milliseconds.
\<close>

function getTotalWalletNfts_loop ::
  "(nat \<Rightarrow> chain) \<Rightarrow> string \<Rightarrow> total_walk \<Rightarrow> error + total_walk" where
  "getTotalWalletNfts_loop envs walletAddress s =
     (case try_count (envs (retryCount s)) walletAddress (rentedCount s) (ownedCount s) of
        (r, ow, None) \<Rightarrow> Inr (s\<lparr>rentedCount := r, ownedCount := ow\<rparr>)
      | (r, ow, Some e) \<Rightarrow>
         (let s1 = s\<lparr>rentedCount := r, ownedCount := ow,
                       slept := slept s @ [initialDelay * 2 ^ retryCount s],
                       retryCount := retryCount s + 1\<rparr>
          in if 5 \<le> retryCount s1 then Inl MaxRetryCountReached
             else getTotalWalletNfts_loop envs walletAddress s1))"
  by pat_completeness auto
termination
  by (relation "measure (\<lambda>(envs, walletAddress, s). 5 - retryCount s)") auto

definition getTotalWalletNfts ::
  "(nat \<Rightarrow> chain) \<Rightarrow> string option \<Rightarrow> string \<Rightarrow> error + nat" where
  "getTotalWalletNfts envs walletAddress type =
     (if falsy walletAddress then Inr 0
      else case getTotalWalletNfts_loop envs (the walletAddress)
                  \<lparr>retryCount = 0, rentedCount = 0, ownedCount = 0, slept = []\<rparr> of
             Inl e \<Rightarrow> Inl e
           | Inr s \<Rightarrow> Inr (if type = ''rented'' then rentedCount s else ownedCount s))"

section \<open>Two chains for concrete runs\<close>

text \<open>
  An index of 25 items with token ids 1 to 25, the custody identifier of an item being its
  token id; the items with an even id are locked, the others are available.
\<close>

definition chain25 :: chain where
  "chain25 =
     \<lparr>getNftsForOwner = (\<lambda>owner. Inr (map (\<lambda>t. \<lparr>contract = ''c'', token = t\<rparr>) 
          [1, 2, 3, 4, 5, 6, 7, 8, 9, 10, 11, 12, 13, 14, 15, 16, 17, 18, 19, 20, 21, 22, 23, 24, 25])),
      callWithRetry = (\<lambda>c. case c of
          GetPrice a t \<Rightarrow> Inr 0
        | GetValue a t \<Rightarrow> Inr 0
        | GetTokenId a t \<Rightarrow> Inr (int t)
        | GetLockedTill k \<Rightarrow> Inr (if even k then 1700000000 else 0))\<rparr>"

text \<open>
  An index of 10 available items, as seen by pass \<open>k\<close>: the lock expiry read of the 10th item
  fails on the first two passes and succeeds from the third on.
\<close>

definition flaky :: "nat \<Rightarrow> chain" where
  "flaky k =
     \<lparr>getNftsForOwner = (\<lambda>owner. Inr (map (\<lambda>t. \<lparr>contract = ''c'', token = t\<rparr>) 
          [1, 2, 3, 4, 5, 6, 7, 8, 9, 10])),
      callWithRetry = (\<lambda>c. case c of
          GetPrice a t \<Rightarrow> Inr 0
        | GetValue a t \<Rightarrow> Inr 0
        | GetTokenId a t \<Rightarrow> Inr (int t)
        | GetLockedTill i \<Rightarrow>
            (if i = 10 \<and> k < 2 then Inl (CallFailed ''getLockedTill'') else Inr 0))\<rparr>"

section \<open>Evaluating the conversions\<close>

text \<open>Floors and ceilings of numeral quotients in \<^typ>\<open>rat\<close>, for evaluation by the simplifier.\<close>

lemma floor_rat_numeral [simp]: "\<lfloor>numeral a / numeral b :: rat\<rfloor> = numeral a div numeral b"
  using floor_divide_of_int_eq [of "numeral a" "numeral b", where ?'a = rat] by simp

lemma ceiling_rat_numeral [simp]:
  "\<lceil>numeral a / numeral b :: rat\<rceil> = - (- numeral a div numeral b)"
  using floor_divide_of_int_eq [of "- numeral a" "numeral b", where ?'a = rat]
  by (simp add: ceiling_def)

lemma floor_rat_one_numeral [simp]: "\<lfloor>1 / numeral b :: rat\<rfloor> = 1 div numeral b"
  using floor_divide_of_int_eq [of 1 "numeral b", where ?'a = rat] by simp

lemmas number_defs =
  round_double_def ilog2_def compute_floorlog pow2_def round_half_even_def Let_def
  nearest_wei_def toFixed18_def parseEther_def formatEther_def parseFloat_def
  hexStripZeros_toHexString_def

lemma js_1e_18_value: "js_1e_18 = 5192296858534828 / 2 ^ 112"
  by (simp add: js_1e_18_def number_defs)

subsection \<open>The rounding is to the nearest Number\<close>

text \<open>
  The rounded integer is within a half of its argument, the binary exponent brackets a
  positive rational, and so \<open>round_double\<close> is within half a unit in the last place.
\<close>

lemma round_half_even_near: "\<bar>of_int (round_half_even x) - x\<bar> \<le> 1 / 2"
proof -
  define f where "f = \<lfloor>x\<rfloor>"
  define r where "r = x - of_int f"
  have r: "0 \<le> r" "r < 1" unfolding r_def f_def by linarith+
  have x: "x = of_int f + r" by (simp add: r_def)
  have "round_half_even x = (if r < 1 / 2 then f else if 1 / 2 < r then f + 1
                             else if even f then f else f + 1)"
    by (simp add: round_half_even_def Let_def f_def r_def)
  with r show ?thesis by (auto simp add: x abs_if)
qed

lemma ilog2_bounds:
  assumes "0 < q"
  shows "pow2 (ilog2 q) \<le> q \<and> q < pow2 (ilog2 q + 1)"
proof (cases "1 \<le> q")
  case True
  let ?n = "nat \<lfloor>q\<rfloor>"
  let ?L = "floorlog 2 ?n"
  from True have fl: "1 \<le> \<lfloor>q\<rfloor>" by simp
  then have n: "0 < ?n" by simp
  from floorlog_bounds [OF n, of 2] have lo: "2 ^ (?L - 1) \<le> ?n" and hi: "?n < 2 ^ ?L" by simp_all
  from n have L: "0 < ?L" by (simp add: floorlog_def)
  from lo fl have "(2 :: int) ^ (?L - 1) \<le> \<lfloor>q\<rfloor>" by (simp add: le_nat_iff)
  then have "of_int (2 ^ (?L - 1)) \<le> q" by (simp only: le_floor_iff)
  then have a: "(2 :: rat) ^ (?L - 1) \<le> q" by simp
  from hi fl have "\<lfloor>q\<rfloor> < (2 :: int) ^ ?L" by (simp add: nat_less_iff)
  then have "q < of_int (2 ^ ?L)" by (simp only: floor_less_iff)
  then have b: "q < (2 :: rat) ^ ?L" by simp
  have e: "ilog2 q = int ?L - 1" using True by (simp add: ilog2_def)
  from L have p1: "pow2 (int ?L - 1) = 2 ^ (?L - 1)" by (simp add: pow2_def nat_diff_distrib)
  have p2: "pow2 (int ?L - 1 + 1) = 2 ^ ?L" by (simp add: pow2_def)
  from a b show ?thesis by (simp only: e p1 p2)
next
  case False
  let ?c = "\<lceil>1 / q\<rceil>"
  let ?m = "nat (?c - 1)"
  let ?L = "floorlog 2 ?m"
  from False assms have inv: "1 < 1 / q" by simp
  then have c2: "2 \<le> ?c" by linarith
  then have m: "0 < ?m" by simp
  from floorlog_bounds [OF m, of 2] have lo: "2 ^ (?L - 1) \<le> ?m" and hi: "?m < 2 ^ ?L" by simp_all
  from m have L: "0 < ?L" by (simp add: floorlog_def)
  from hi c2 have "?c - 1 < (2 :: int) ^ ?L" by (simp add: nat_less_iff)
  then have "?c \<le> (2 :: int) ^ ?L" by simp
  then have "1 / q \<le> of_int (2 ^ ?L)" by (simp only: ceiling_le_iff)
  then have "1 / q \<le> 2 ^ ?L" by simp
  with assms have a: "1 / 2 ^ ?L \<le> q"
    by (simp add: field_simps)
  from lo c2 have "(2 :: int) ^ (?L - 1) \<le> ?c - 1" by (simp add: le_nat_iff)
  then have "(2 :: int) ^ (?L - 1) < ?c" by simp
  then have "of_int (2 ^ (?L - 1)) < 1 / q" by (simp only: less_ceiling_iff)
  then have "(2 :: rat) ^ (?L - 1) < 1 / q" by simp
  with assms have b: "q < 1 / 2 ^ (?L - 1)"
    by (simp add: field_simps)
  have e: "ilog2 q = - int ?L" using False by (simp add: ilog2_def)
  from L have p1: "pow2 (- int ?L) = 1 / 2 ^ ?L" by (simp add: pow2_def)
  from L have p2: "pow2 (- int ?L + 1) = 1 / 2 ^ (?L - 1)"
    by (cases "?L") (simp_all add: pow2_def nat_diff_distrib)
  from a b show ?thesis by (simp only: e p1 p2)
qed

lemma round_double_near:
  assumes "q \<noteq> 0"
  shows "\<bar>round_double q - q\<bar> \<le> pow2 (max (ilog2 \<bar>q\<bar> - 52) (- 1074)) / 2"
proof -
  let ?P = "pow2 (max (ilog2 \<bar>q\<bar> - 52) (- 1074))"
  let ?m = "of_int (round_half_even (\<bar>q\<bar> / ?P)) :: rat"
  have P: "0 < ?P" by (simp add: pow2_def)
  have rd: "round_double q = sgn q * ?m * ?P"
    using assms by (simp add: round_double_def Let_def)
  have "\<bar>round_double q - q\<bar> = \<bar>sgn q * (?m * ?P - \<bar>q\<bar>)\<bar>"
    by (simp add: rd algebra_simps sgn_if abs_if)
  also have "\<dots> = \<bar>?m * ?P - \<bar>q\<bar>\<bar>"
    using assms by (simp add: abs_mult)
  also have "\<dots> = \<bar>?m - \<bar>q\<bar> / ?P\<bar> * ?P"
  proof -
    have "?m * ?P - \<bar>q\<bar> = (?m - \<bar>q\<bar> / ?P) * ?P" using P by (simp add: field_simps)
    then show ?thesis using P by (simp only: abs_mult) simp
  qed
  also have "\<dots> \<le> 1 / 2 * ?P"
    using round_half_even_near [of "\<bar>q\<bar> / ?P"] P by (intro mult_right_mono) simp_all
  finally show ?thesis by simp
qed

section \<open>Properties of the allocation loop\<close>

lemma parseEther_toFixed18:
  "parseEther (toFixed18 x) = (if 10 ^ 21 \<le> \<bar>x\<bar> then Inl InvalidDecimal else Inr (nearest_wei x))"
  by (simp add: parseEther_def toFixed18_def)

lemma nearest_wei_nonneg: "0 \<le> x \<Longrightarrow> 0 \<le> nearest_wei x"
  by (simp add: nearest_wei_def)

lemma nearest_wei_0 [simp]: "nearest_wei 0 = 0"
  by (simp add: nearest_wei_def)

lemma pow2_pos: "0 < pow2 e"
  by (simp add: pow2_def)

lemma round_half_even_nonneg: "0 \<le> x \<Longrightarrow> 0 \<le> round_half_even x"
  by (simp add: round_half_even_def Let_def)

lemma round_double_nonneg: "0 \<le> q \<Longrightarrow> 0 \<le> round_double q"
  using pow2_pos [of "max (ilog2 \<bar>q\<bar> - 52) (- 1074)"]
        round_half_even_nonneg [of "\<bar>q\<bar> / pow2 (max (ilog2 \<bar>q\<bar> - 52) (- 1074))"]
  by (simp add: round_double_def Let_def sgn_if)

lemma round_double_0 [simp]: "round_double 0 = 0"
  by (simp add: round_double_def)

lemma carry_nonneg: "0 \<le> n \<Longrightarrow> 0 \<le> parseFloat (formatEther n)"
  by (simp add: parseFloat_def formatEther_def round_double_nonneg)

lemma carry_0 [simp]: "parseFloat (formatEther 0) = 0"
  by (simp add: parseFloat_def formatEther_def)

lemma processNft_Inr:
  "processNft s n = Inr s' \<longleftrightarrow>
     \<bar>fee n\<bar> < 10 ^ 21 \<and> 0 \<le> nearest_wei (fee n) \<and> \<bar>credit s\<bar> < 10 ^ 21 \<and>
     s' = \<lparr>acc = \<lparr>totalFee = totalFee (acc s) + nearest_wei (fee n),
                   nftAddresses = nftAddresses (acc s) @ [address n],
                   tokenIds = tokenIds (acc s) @ [tokenId n],
                   values = values (acc s) @ [nearest_wei (fee n)],
                   creditUsed = creditUsed (acc s) @
                     [if creditEligibleFee n \<le> nearest_wei (credit s) then creditEligibleFee n
                      else nearest_wei (credit s)]\<rparr>,
            credit = parseFloat (formatEther
                      (if creditEligibleFee n \<le> nearest_wei (credit s)
                       then nearest_wei (credit s) - creditEligibleFee n else 0))\<rparr>"
  by (auto simp add: processNft_def parseEther_toFixed18 hexStripZeros_toHexString_def
        creditEligibleFee_def Let_def)

lemma forEach_append:
  "forEach s (xs @ ys) = (case forEach s xs of Inl e \<Rightarrow> Inl e | Inr s1 \<Rightarrow> forEach s1 ys)"
  by (induction xs arbitrary: s) (auto split: sum.splits)

lemma forEach_outputs:
  "forEach s ns = Inr s' \<Longrightarrow>
     totalFee (acc s') = totalFee (acc s) + sum_list (map (\<lambda>n. nearest_wei (fee n)) ns) \<and>
     nftAddresses (acc s') = nftAddresses (acc s) @ map address ns \<and>
     tokenIds (acc s') = tokenIds (acc s) @ map tokenId ns \<and>
     values (acc s') = values (acc s) @ map (\<lambda>n. nearest_wei (fee n)) ns \<and>
     length (creditUsed (acc s')) = length (creditUsed (acc s)) + length ns"
proof (induction ns arbitrary: s)
  case Nil
  then show ?case by simp
next
  case (Cons n ns)
  from Cons.prems obtain s1 where s1: "processNft s n = Inr s1" and rest: "forEach s1 ns = Inr s'"
    by (auto split: sum.splits)
  from s1 have "totalFee (acc s1) = totalFee (acc s) + nearest_wei (fee n)"
    and "nftAddresses (acc s1) = nftAddresses (acc s) @ [address n]"
    and "tokenIds (acc s1) = tokenIds (acc s) @ [tokenId n]"
    and "values (acc s1) = values (acc s) @ [nearest_wei (fee n)]"
    and "length (creditUsed (acc s1)) = length (creditUsed (acc s)) + 1"
    by (simp_all add: processNft_Inr)
  with Cons.IH [OF rest] show ?case by simp
qed

lemma forEach_fees_nonneg:
  "forEach s ns = Inr s' \<Longrightarrow> n \<in> set ns \<Longrightarrow> 0 \<le> nearest_wei (fee n)"
proof (induction ns arbitrary: s)
  case Nil
  then show ?case by simp
next
  case (Cons m ns)
  from Cons.prems(1) obtain s1 where s1: "processNft s m = Inr s1" and rest: "forEach s1 ns = Inr s'"
    by (auto split: sum.splits)
  from s1 have "0 \<le> nearest_wei (fee m)" by (simp add: processNft_Inr)
  with Cons.IH [OF rest] Cons.prems(2) show ?case by auto
qed

lemma creditEligibleFee_bounds:
  "0 \<le> nearest_wei (fee n) \<Longrightarrow> 0 \<le> creditEligibleFee n \<and> creditEligibleFee n \<le> nearest_wei (fee n)"
  by (simp add: creditEligibleFee_def)

lemma processNft_credit_nonneg:
  "processNft s n = Inr s1 \<Longrightarrow> 0 \<le> credit s \<Longrightarrow> 0 \<le> credit s1"
  by (auto simp add: processNft_Inr intro!: carry_nonneg)

lemma forEach_credit_nonneg:
  "forEach s ns = Inr s' \<Longrightarrow> 0 \<le> credit s \<Longrightarrow> 0 \<le> credit s'"
proof (induction ns arbitrary: s)
  case Nil
  then show ?case by simp
next
  case (Cons n ns)
  from Cons.prems(1) obtain s1 where s1: "processNft s n = Inr s1" and rest: "forEach s1 ns = Inr s'"
    by (auto split: sum.splits)
  from Cons.IH [OF rest processNft_credit_nonneg [OF s1 Cons.prems(2)]] show ?case .
qed

text \<open>Once the running credit is zero, it stays zero and nothing more is assigned.\<close>

lemma forEach_credit_exhausted:
  "forEach s ns = Inr s' \<Longrightarrow> credit s = 0 \<Longrightarrow>
     creditUsed (acc s') = creditUsed (acc s) @ replicate (length ns) 0"
proof (induction ns arbitrary: s)
  case Nil
  then show ?case by simp
next
  case (Cons n ns)
  from Cons.prems(1) obtain s1 where s1: "processNft s n = Inr s1" and rest: "forEach s1 ns = Inr s'"
    by (auto split: sum.splits)
  from s1 have fee: "0 \<le> nearest_wei (fee n)" by (simp add: processNft_Inr)
  from creditEligibleFee_bounds [OF fee] s1 Cons.prems(2)
  have "credit s1 = 0" and "creditUsed (acc s1) = creditUsed (acc s) @ [0]"
    by (auto simp add: processNft_Inr)
  with Cons.IH [OF rest] show ?case by (simp add: replicate_app_Cons_same)
qed

text \<open>The entry of the asset at position \<open>length pre\<close>, from the running credit that reaches it.\<close>

lemma forEach_entry:
  assumes "forEach s (pre @ n # post) = Inr s'" and "creditUsed (acc s) = []"
  shows "\<exists>s1. forEach s pre = Inr s1 \<and>
           creditUsed (acc s') ! length pre =
             (if creditEligibleFee n \<le> nearest_wei (credit s1) then creditEligibleFee n
              else nearest_wei (credit s1)) \<and>
           (nearest_wei (credit s1) < creditEligibleFee n \<longrightarrow>
              (\<forall>j. length pre < j \<and> j < length (pre @ n # post) \<longrightarrow> creditUsed (acc s') ! j = 0))"
proof -
  from assms(1) obtain s1 where s1: "forEach s pre = Inr s1" and tl: "forEach s1 (n # post) = Inr s'"
    by (auto simp add: forEach_append split: sum.splits)
  from tl obtain s2 where s2: "processNft s1 n = Inr s2" and rest: "forEach s2 post = Inr s'"
    by (auto split: sum.splits)
  let ?u = "if creditEligibleFee n \<le> nearest_wei (credit s1) then creditEligibleFee n
            else nearest_wei (credit s1)"
  from forEach_outputs [OF s1] assms(2) have len1: "length (creditUsed (acc s1)) = length pre"
    by simp
  from s2 have cu2: "creditUsed (acc s2) = creditUsed (acc s1) @ [?u]"
    by (simp add: processNft_Inr)
  from forEach_outputs [OF rest] have len': "length (creditUsed (acc s')) = length (creditUsed (acc s2)) + length post"
    by simp
  have pre2: "take (length (creditUsed (acc s2))) (creditUsed (acc s')) = creditUsed (acc s2)"
    using rest
  proof (induction post arbitrary: s2)
    case Nil
    then show ?case by simp
  next
    case (Cons m post)
    from Cons.prems obtain s3 where s3: "processNft s2 m = Inr s3" and r3: "forEach s3 post = Inr s'"
      by (auto split: sum.splits)
    from s3 obtain u where u: "creditUsed (acc s3) = creditUsed (acc s2) @ [u]"
      by (simp add: processNft_Inr)
    from Cons.IH [OF r3] have "take (length (creditUsed (acc s3))) (creditUsed (acc s')) = creditUsed (acc s3)" .
    then have "take (length (creditUsed (acc s2))) (take (length (creditUsed (acc s3))) (creditUsed (acc s')))
                 = take (length (creditUsed (acc s2))) (creditUsed (acc s3))" by simp
    then show ?case by (simp add: u min_def)
  qed
  have entry: "creditUsed (acc s') ! length pre = ?u"
  proof -
    have "creditUsed (acc s') ! length pre
            = take (length (creditUsed (acc s2))) (creditUsed (acc s')) ! length pre"
      by (simp add: cu2 len1)
    also have "\<dots> = creditUsed (acc s2) ! length pre" by (simp only: pre2)
    also have "\<dots> = ?u" using len1 by (simp add: cu2 nth_append)
    finally show ?thesis .
  qed
  have zeros: "\<forall>j. length pre < j \<and> j < length (pre @ n # post) \<longrightarrow> creditUsed (acc s') ! j = 0"
    if lt: "nearest_wei (credit s1) < creditEligibleFee n"
  proof -
    from s2 lt have "credit s2 = 0" by (simp add: processNft_Inr)
    from forEach_credit_exhausted [OF rest this]
    have "creditUsed (acc s') = creditUsed (acc s2) @ replicate (length post) 0" .
    then show ?thesis by (auto simp add: cu2 len1 nth_append)
  qed
  from s1 entry zeros show ?thesis by blast
qed

subsection \<open>Concrete runs\<close>

lemmas run_defs = processNfts_def processNft_def init_allocation_def number_defs js_1e_18_value

lemma processNfts_Inr:
  "processNfts nfts c = Inr r \<longleftrightarrow>
     (\<exists>s'. forEach \<lparr>acc = init_allocation, credit = c\<rparr> nfts = Inr s' \<and>
           0 \<le> totalFee (acc s') \<and> r = acc s')"
  by (auto simp add: processNfts_def hexStripZeros_toHexString_def split: sum.splits)

lemma run_one_ether:
  "processNfts [\<lparr>address = ''a'', tokenId = 1, fee = 1\<rparr>] 1 =
     Inr \<lparr>totalFee = 10 ^ 18, nftAddresses = [''a''], tokenIds = [1],
          values = [10 ^ 18], creditUsed = [10 ^ 18]\<rparr>"
  by (simp add: run_defs)

lemma run_drift:
  "processNfts [\<lparr>address = ''a'', tokenId = 1, fee = js_1e_18\<rparr>,
                \<lparr>address = ''b'', tokenId = 2, fee = 2\<rparr>] 1 =
     Inr \<lparr>totalFee = 2 * 10 ^ 18 + 1, nftAddresses = [''a'', ''b''], tokenIds = [1, 2],
          values = [1, 2 * 10 ^ 18], creditUsed = [1, 10 ^ 18]\<rparr>"
  by (simp add: run_defs)

lemma run_no_credit:
  "processNfts [\<lparr>address = ''a'', tokenId = 1, fee = js_1e_18\<rparr>,
                \<lparr>address = ''b'', tokenId = 2, fee = 2\<rparr>] 0 =
     Inr \<lparr>totalFee = 2 * 10 ^ 18 + 1, nftAddresses = [''a'', ''b''], tokenIds = [1, 2],
          values = [1, 2 * 10 ^ 18], creditUsed = [0, 0]\<rparr>"
  by (simp add: run_defs)

lemma run_sub_wei:
  "processNfts [\<lparr>address = ''a'', tokenId = 1, fee = 1 / 2 ^ 60\<rparr>] 1 =
     Inr \<lparr>totalFee = 1, nftAddresses = [''a''], tokenIds = [1],
          values = [1], creditUsed = [0]\<rparr>"
  by (simp add: run_defs)

lemma literal_3: "round_double (3 / 10 ^ 18) = 7788445287802241 / 2 ^ 111"
  by (simp add: number_defs)

lemma literal_5: "round_double (5 / 10 ^ 18) = 6490371073168535 / 2 ^ 110"
  by (simp add: number_defs)

lemma literal_2: "round_double (2 / 10 ^ 18) = 5192296858534828 / 2 ^ 111"
  by (simp add: number_defs)

lemma literal_6: "round_double (6 / 10 ^ 18) = 7788445287802241 / 2 ^ 110"
  by (simp add: number_defs)

lemma run_3_5_2:
  "processNfts [\<lparr>address = ''a'', tokenId = 1, fee = round_double (3 / 10 ^ 18)\<rparr>,
                \<lparr>address = ''b'', tokenId = 2, fee = round_double (5 / 10 ^ 18)\<rparr>,
                \<lparr>address = ''c'', tokenId = 3, fee = round_double (2 / 10 ^ 18)\<rparr>]
               (round_double (6 / 10 ^ 18)) =
     Inr \<lparr>totalFee = 10, nftAddresses = [''a'', ''b'', ''c''], tokenIds = [1, 2, 3],
          values = [3, 5, 2], creditUsed = [3, 3, 0]\<rparr>"
  by (simp add: literal_3 literal_5 literal_2 literal_6 run_defs)

lemma run_3_prefix:
  "forEach \<lparr>acc = init_allocation, credit = round_double (6 / 10 ^ 18)\<rparr>
       [\<lparr>address = ''a'', tokenId = 1, fee = round_double (3 / 10 ^ 18)\<rparr>] =
     Inr \<lparr>acc = \<lparr>totalFee = 3, nftAddresses = [''a''], tokenIds = [1],
                 values = [3], creditUsed = [3]\<rparr>,
          credit = round_double (3 / 10 ^ 18)\<rparr>"
  by (simp add: literal_3 literal_5 literal_2 literal_6 run_defs)

section \<open>The allocation claims\<close>

lemma processNfts_entry:
  assumes run: "processNfts nfts c = Inr r" and i: "i < length nfts"
  shows "\<exists>s1. forEach \<lparr>acc = init_allocation, credit = c\<rparr> (take i nfts) = Inr s1 \<and>
           creditUsed r ! i =
             (if creditEligibleFee (nfts ! i) \<le> nearest_wei (credit s1)
              then creditEligibleFee (nfts ! i) else nearest_wei (credit s1))"
proof -
  from run obtain s' where s': "forEach \<lparr>acc = init_allocation, credit = c\<rparr> nfts = Inr s'"
    and r: "r = acc s'"
    by (auto simp add: processNfts_Inr)
  from i have split: "nfts = take i nfts @ nfts ! i # drop (Suc i) nfts"
    by (rule id_take_nth_drop)
  have "forEach \<lparr>acc = init_allocation, credit = c\<rparr> (take i nfts @ nfts ! i # drop (Suc i) nfts) = Inr s'"
    using s' split by simp
  from forEach_entry [OF this] i r show ?thesis
    by (auto simp add: init_allocation_def min_def)
qed

lemma processNfts_outputs:
  assumes run: "processNfts nfts c = Inr r"
  shows "totalFee r = sum_list (map (\<lambda>n. nearest_wei (fee n)) nfts)"
    and "nftAddresses r = map address nfts"
    and "tokenIds r = map tokenId nfts"
    and "values r = map (\<lambda>n. nearest_wei (fee n)) nfts"
    and "length (creditUsed r) = length nfts"
    and "\<forall>n\<in>set nfts. 0 \<le> nearest_wei (fee n)"
proof -
  from run obtain s' where s': "forEach \<lparr>acc = init_allocation, credit = c\<rparr> nfts = Inr s'"
    and r: "r = acc s'"
    by (auto simp add: processNfts_Inr)
  from forEach_outputs [OF s'] r
  show "totalFee r = sum_list (map (\<lambda>n. nearest_wei (fee n)) nfts)"
    and "nftAddresses r = map address nfts"
    and "tokenIds r = map tokenId nfts"
    and "values r = map (\<lambda>n. nearest_wei (fee n)) nfts"
    and "length (creditUsed r) = length nfts"
    by (simp_all add: init_allocation_def)
  from forEach_fees_nonneg [OF s'] show "\<forall>n\<in>set nfts. 0 \<le> nearest_wei (fee n)" by blast
qed

text \<open>
  Claim C1, as amended. The claimed identity \<open>feeBeforeCredit = feeAfterCredit + creditConsumed\<close>
  does not hold of the result: the value attached for asset \<open>i\<close> is its full fee in wei,
  whatever credit it consumed. What holds, for a non-negative credit balance and every index
  \<open>i\<close>: \<open>values[i]\<close> is the fee of asset \<open>i\<close> in wei, \<open>creditUsed[i]\<close> lies between zero
  and that fee, and the claimed identity holds at \<open>i\<close> exactly when \<open>creditUsed[i]\<close> is zero.
\<close>

theorem attached_value_and_credit_bounds:
  assumes "processNfts nfts c = Inr r" and "0 \<le> c" and "i < length nfts"
  shows "values r ! i = nearest_wei (fee (nfts ! i)) \<and>
         0 \<le> creditUsed r ! i \<and> creditUsed r ! i \<le> values r ! i \<and>
         (nearest_wei (fee (nfts ! i)) = values r ! i + creditUsed r ! i
            \<longleftrightarrow> creditUsed r ! i = 0)"
proof -
  from processNfts_outputs(4) [OF assms(1)] assms(3)
  have v: "values r ! i = nearest_wei (fee (nfts ! i))" by simp
  from processNfts_outputs(6) [OF assms(1)] assms(3)
  have "0 \<le> nearest_wei (fee (nfts ! i))" by simp
  from creditEligibleFee_bounds [OF this]
  have f: "0 \<le> creditEligibleFee (nfts ! i)" "creditEligibleFee (nfts ! i) \<le> nearest_wei (fee (nfts ! i))"
    by simp_all
  from processNfts_entry [OF assms(1) assms(3)] obtain s1
    where s1: "forEach \<lparr>acc = init_allocation, credit = c\<rparr> (take i nfts) = Inr s1"
      and u: "creditUsed r ! i =
             (if creditEligibleFee (nfts ! i) \<le> nearest_wei (credit s1)
              then creditEligibleFee (nfts ! i) else nearest_wei (credit s1))"
    by blast
  from forEach_credit_nonneg [OF s1] assms(2) have "0 \<le> credit s1" by simp
  then have "0 \<le> nearest_wei (credit s1)" by (rule nearest_wei_nonneg)
  with f u v show ?thesis by auto
qed

text \<open>
  The theorem at one asset with a fee of one ether and a credit of one ether.
\<close>

theorem attached_value_and_credit_bounds_witness:
  "processNfts [\<lparr>address = ''a'', tokenId = 1, fee = 1\<rparr>] 1 =
     Inr \<lparr>totalFee = 10 ^ 18, nftAddresses = [''a''], tokenIds = [1],
          values = [10 ^ 18], creditUsed = [10 ^ 18]\<rparr> \<and>
   (0::rat) \<le> 1 \<and> (0::nat) < length [\<lparr>address = ''a'', tokenId = 1, fee = 1\<rparr>] \<and>
   nearest_wei 1 = 10 ^ 18"
proof -
  have pos: "(0::rat) \<le> 1" and i: "(0::nat) < length [\<lparr>address = ''a'', tokenId = 1, fee = 1\<rparr>]"
    by simp_all
  from attached_value_and_credit_bounds [OF run_one_ether pos i]
  have "nearest_wei 1 = 10 ^ 18" by simp
  with run_one_ether pos i show ?thesis by (intro conjI)
qed

text \<open>
  Claim C1 as stated fails at that input: the fee before credit is \<open>10 ^ 18\<close> wei, the value
  attached is \<open>10 ^ 18\<close> wei and the credit consumed is \<open>10 ^ 18\<close> wei.
\<close>

theorem invariant_counterexample:
  "processNfts [\<lparr>address = ''a'', tokenId = 1, fee = 1\<rparr>] 1 =
     Inr \<lparr>totalFee = 10 ^ 18, nftAddresses = [''a''], tokenIds = [1],
          values = [10 ^ 18], creditUsed = [10 ^ 18]\<rparr> \<and>
   nearest_wei 1 \<noteq> [10 ^ 18] ! 0 + [10 ^ 18] ! 0"
  by (rule conjI [OF run_one_ether]) (simp add: nearest_wei_def)

text \<open>
  Claim C5. Whenever \<^verbatim>\<open>processNfts\<close> returns, \<open>values\<close> lists the full fee of every asset in
  wei, \<open>totalFee\<close> is the sum of these integers, and both are the same for any other credit
  balance on which it returns.
\<close>

theorem full_fee_and_total:
  assumes "processNfts nfts c = Inr r" and "processNfts nfts c' = Inr r'"
  shows "values r = map (\<lambda>n. nearest_wei (fee n)) nfts \<and>
         totalFee r = sum_list (values r) \<and>
         values r' = values r \<and> totalFee r' = totalFee r"
  using processNfts_outputs(1,4) [OF assms(1)] processNfts_outputs(1,4) [OF assms(2)]
  by simp

text \<open>
  The theorem at two assets, with credit one ether and with no credit.
\<close>

theorem full_fee_and_total_witness:
  "processNfts [\<lparr>address = ''a'', tokenId = 1, fee = js_1e_18\<rparr>,
                \<lparr>address = ''b'', tokenId = 2, fee = 2\<rparr>] 1 =
     Inr \<lparr>totalFee = 2 * 10 ^ 18 + 1, nftAddresses = [''a'', ''b''], tokenIds = [1, 2],
          values = [1, 2 * 10 ^ 18], creditUsed = [1, 10 ^ 18]\<rparr> \<and>
   processNfts [\<lparr>address = ''a'', tokenId = 1, fee = js_1e_18\<rparr>,
                \<lparr>address = ''b'', tokenId = 2, fee = 2\<rparr>] 0 =
     Inr \<lparr>totalFee = 2 * 10 ^ 18 + 1, nftAddresses = [''a'', ''b''], tokenIds = [1, 2],
          values = [1, 2 * 10 ^ 18], creditUsed = [0, 0]\<rparr> \<and>
   [nearest_wei js_1e_18, nearest_wei 2] = [1, 2 * 10 ^ 18]"
proof -
  from full_fee_and_total [OF run_drift run_no_credit]
  have "[nearest_wei js_1e_18, nearest_wei 2] = [1, 2 * 10 ^ 18]" by simp
  with run_drift run_no_credit show ?thesis by (intro conjI)
qed

text \<open>
  Claim C9. With a non-negative credit balance (the precondition of the allocation), an asset
  whose fee is below \<^verbatim>\<open>1e-18\<close> is assigned zero credit, and it keeps its place in all four
  output sequences: they have the length of the input and hold the asset's address, token id
  and value at its index.
\<close>

theorem sub_unit_fee_gets_no_credit:
  assumes "processNfts nfts c = Inr r" and "0 \<le> c" and "i < length nfts"
    and "fee (nfts ! i) < js_1e_18"
  shows "creditUsed r ! i = 0 \<and>
         length (nftAddresses r) = length nfts \<and> length (tokenIds r) = length nfts \<and>
         length (values r) = length nfts \<and> length (creditUsed r) = length nfts \<and>
         nftAddresses r ! i = address (nfts ! i) \<and> tokenIds r ! i = tokenId (nfts ! i) \<and>
         values r ! i = nearest_wei (fee (nfts ! i))"
proof -
  from processNfts_entry [OF assms(1) assms(3)] obtain s1
    where s1: "forEach \<lparr>acc = init_allocation, credit = c\<rparr> (take i nfts) = Inr s1"
      and u: "creditUsed r ! i =
             (if creditEligibleFee (nfts ! i) \<le> nearest_wei (credit s1)
              then creditEligibleFee (nfts ! i) else nearest_wei (credit s1))"
    by blast
  from forEach_credit_nonneg [OF s1] assms(2) have "0 \<le> credit s1" by simp
  then have "0 \<le> nearest_wei (credit s1)" by (rule nearest_wei_nonneg)
  with u assms(4) have "creditUsed r ! i = 0" by (simp add: creditEligibleFee_def)
  with processNfts_outputs(2-5) [OF assms(1)] assms(3) show ?thesis by simp
qed

text \<open>
  The theorem at a fee of \<open>2 ^ - 60\<close> ether, which is below \<^verbatim>\<open>1e-18\<close> and still prints as one
  wei: the value is one wei and the credit consumed is zero.
\<close>

theorem sub_unit_fee_gets_no_credit_witness:
  "processNfts [\<lparr>address = ''a'', tokenId = 1, fee = 1 / 2 ^ 60\<rparr>] 1 =
     Inr \<lparr>totalFee = 1, nftAddresses = [''a''], tokenIds = [1],
          values = [1], creditUsed = [0]\<rparr> \<and>
   (0::rat) \<le> 1 \<and> (0::nat) < length [\<lparr>address = ''a'', tokenId = 1, fee = 1 / 2 ^ 60\<rparr>] \<and>
   (1 / 2 ^ 60 :: rat) < js_1e_18 \<and> nearest_wei (1 / 2 ^ 60) = 1"
proof -
  have pos: "(0::rat) \<le> 1"
    and i: "(0::nat) < length [\<lparr>address = ''a'', tokenId = 1, fee = 1 / 2 ^ 60\<rparr>]"
    by simp_all
  have lt: "(1 / 2 ^ 60 :: rat) < js_1e_18"
    by (simp add: js_1e_18_value)
  then have small: "fee ([\<lparr>address = ''a'', tokenId = 1, fee = 1 / 2 ^ 60\<rparr>] ! 0) < js_1e_18"
    by simp
  from sub_unit_fee_gets_no_credit [OF run_sub_wei pos i small]
  have "nearest_wei (1 / 2 ^ 60) = 1" by simp
  with run_sub_wei pos i lt show ?thesis by (intro conjI)
qed

section \<open>Greedy assignment, the float round trip and the single-asset path\<close>

lemma run_single_5:
  "processNfts [\<lparr>address = ''a'', tokenId = 1, fee = js_1e_18\<rparr>] 5 =
     Inr \<lparr>totalFee = 1, nftAddresses = [''a''], tokenIds = [1],
          values = [1], creditUsed = [1]\<rparr>"
  by (simp add: run_defs)

text \<open>
  The inputs of the concrete runs are Numbers: rounding leaves them as they are.
\<close>

lemma doubles: "is_double 1" "is_double 2" "is_double 5" "is_double (1 / 2 ^ 60)" "is_double js_1e_18"
  by (simp_all add: is_double_def number_defs js_1e_18_value)

text \<open>
  Claim C6, as amended. Let \<open>s1\<close> be the loop state that reaches the asset \<open>n\<close> after the
  assets \<open>pre\<close>, let \<open>c\<close> be its running credit in wei and \<open>f\<close> the credit-eligible fee of
  \<open>n\<close>: its fee in wei, or zero for a fee below \<^verbatim>\<open>1e-18\<close>. Then \<open>creditUsed\<close> for \<open>n\<close> is \<open>f\<close>
  if \<open>f \<le> c\<close>, and otherwise it is \<open>c\<close> and every later asset gets zero. Fees of 3, 5 and 2
  wei with a credit of 6 wei give \<open>creditUsed = [3, 3, 0]\<close> and \<open>totalFee = 10\<close>.
\<close>

theorem greedy_in_order:
  assumes "processNfts (pre @ n # post) c = Inr r"
    and "forEach \<lparr>acc = init_allocation, credit = c\<rparr> pre = Inr s1"
  shows "creditUsed r ! length pre =
           (if creditEligibleFee n \<le> nearest_wei (credit s1) then creditEligibleFee n
            else nearest_wei (credit s1)) \<and>
         (nearest_wei (credit s1) < creditEligibleFee n \<and>
            length pre < j \<and> j < length (pre @ n # post) \<longrightarrow> creditUsed r ! j = 0) \<and>
         processNfts [\<lparr>address = ''a'', tokenId = 1, fee = round_double (3 / 10 ^ 18)\<rparr>,
                      \<lparr>address = ''b'', tokenId = 2, fee = round_double (5 / 10 ^ 18)\<rparr>,
                      \<lparr>address = ''c'', tokenId = 3, fee = round_double (2 / 10 ^ 18)\<rparr>]
                     (round_double (6 / 10 ^ 18)) =
           Inr \<lparr>totalFee = 10, nftAddresses = [''a'', ''b'', ''c''], tokenIds = [1, 2, 3],
                values = [3, 5, 2], creditUsed = [3, 3, 0]\<rparr>"
proof -
  from assms(1) obtain s' where s': "forEach \<lparr>acc = init_allocation, credit = c\<rparr> (pre @ n # post) = Inr s'"
    and r: "r = acc s'"
    by (auto simp add: processNfts_Inr)
  have "creditUsed (acc \<lparr>acc = init_allocation, credit = c\<rparr>) = []"
    by (simp add: init_allocation_def)
  from forEach_entry [OF s' this] assms(2) r
  have "creditUsed r ! length pre =
           (if creditEligibleFee n \<le> nearest_wei (credit s1) then creditEligibleFee n
            else nearest_wei (credit s1))"
    and "nearest_wei (credit s1) < creditEligibleFee n \<and>
            length pre < j \<and> j < length (pre @ n # post) \<longrightarrow> creditUsed r ! j = 0"
    by auto
  with run_3_5_2 show ?thesis by (intro conjI)
qed

text \<open>
  The theorem at the second of the three assets of that run: the credit that reaches it is
  3 wei, below its fee of 5 wei, so it gets 3 and the third asset gets nothing.
\<close>

theorem greedy_in_order_witness:
  "processNfts ([\<lparr>address = ''a'', tokenId = 1, fee = round_double (3 / 10 ^ 18)\<rparr>] @
                 \<lparr>address = ''b'', tokenId = 2, fee = round_double (5 / 10 ^ 18)\<rparr> #
                 [\<lparr>address = ''c'', tokenId = 3, fee = round_double (2 / 10 ^ 18)\<rparr>])
               (round_double (6 / 10 ^ 18)) =
     Inr \<lparr>totalFee = 10, nftAddresses = [''a'', ''b'', ''c''], tokenIds = [1, 2, 3],
          values = [3, 5, 2], creditUsed = [3, 3, 0]\<rparr> \<and>
   forEach \<lparr>acc = init_allocation, credit = round_double (6 / 10 ^ 18)\<rparr>
       [\<lparr>address = ''a'', tokenId = 1, fee = round_double (3 / 10 ^ 18)\<rparr>] =
     Inr \<lparr>acc = \<lparr>totalFee = 3, nftAddresses = [''a''], tokenIds = [1],
                 values = [3], creditUsed = [3]\<rparr>,
          credit = round_double (3 / 10 ^ 18)\<rparr> \<and>
   nearest_wei (round_double (3 / 10 ^ 18)) <
     creditEligibleFee \<lparr>address = ''b'', tokenId = 2, fee = round_double (5 / 10 ^ 18)\<rparr> \<and>
   [3, 3, 0 :: int] ! 1 = nearest_wei (round_double (3 / 10 ^ 18)) \<and>
   [3, 3, 0 :: int] ! 2 = 0"
proof -
  have run: "processNfts ([\<lparr>address = ''a'', tokenId = 1, fee = round_double (3 / 10 ^ 18)\<rparr>] @
                 \<lparr>address = ''b'', tokenId = 2, fee = round_double (5 / 10 ^ 18)\<rparr> #
                 [\<lparr>address = ''c'', tokenId = 3, fee = round_double (2 / 10 ^ 18)\<rparr>])
               (round_double (6 / 10 ^ 18)) =
     Inr \<lparr>totalFee = 10, nftAddresses = [''a'', ''b'', ''c''], tokenIds = [1, 2, 3],
          values = [3, 5, 2], creditUsed = [3, 3, 0]\<rparr>"
    using run_3_5_2 by simp
  have lt: "nearest_wei (round_double (3 / 10 ^ 18)) <
     creditEligibleFee \<lparr>address = ''b'', tokenId = 2, fee = round_double (5 / 10 ^ 18)\<rparr>"
    by (simp add: creditEligibleFee_def number_defs js_1e_18_value)
  from greedy_in_order [OF run run_3_prefix, of 2] lt
  have "[3, 3, 0 :: int] ! 1 = nearest_wei (round_double (3 / 10 ^ 18))"
    and "[3, 3, 0 :: int] ! 2 = 0"
    by simp_all
  with run run_3_prefix lt show ?thesis by (intro conjI)
qed

text \<open>
  Claim C6 as stated fails for a fee below \<^verbatim>\<open>1e-18\<close> that still prints as one wei: the
  credit of \<open>10 ^ 18\<close> wei is at least the fee of one wei, and yet the credit used is zero, not
  the fee.
\<close>

theorem greedy_counterexample:
  "processNfts [\<lparr>address = ''a'', tokenId = 1, fee = 1 / 2 ^ 60\<rparr>] 1 =
     Inr \<lparr>totalFee = 1, nftAddresses = [''a''], tokenIds = [1],
          values = [1], creditUsed = [0]\<rparr> \<and>
   is_double (1 / 2 ^ 60) \<and>
   nearest_wei (1 / 2 ^ 60) = 1 \<and> nearest_wei 1 = 10 ^ 18 \<and>
   nearest_wei (1 / 2 ^ 60) \<le> nearest_wei 1 \<and> [0 :: int] ! 0 \<noteq> nearest_wei (1 / 2 ^ 60)"
  by (intro conjI run_sub_wei doubles) (simp_all add: nearest_wei_def)

text \<open>
  Claim C3 against the code. The running credit goes through
  \<^verbatim>\<open>parseFloat(formatEther(...))\<close> after every asset and is read back with \<^verbatim>\<open>toFixed(18)\<close>:
  with fees of one wei and two ether and a credit of one ether, the remainder of
  \<open>10 ^ 18 - 1\<close> wei becomes the Number 1 and is read back as \<open>10 ^ 18\<close> wei, so the credit
  assigned adds up to \<open>10 ^ 18 + 1\<close> wei, one more than was available.
\<close>

theorem credit_round_trip_over_allocates:
  "processNfts [\<lparr>address = ''a'', tokenId = 1, fee = js_1e_18\<rparr>,
                \<lparr>address = ''b'', tokenId = 2, fee = 2\<rparr>] 1 =
     Inr \<lparr>totalFee = 2 * 10 ^ 18 + 1, nftAddresses = [''a'', ''b''], tokenIds = [1, 2],
          values = [1, 2 * 10 ^ 18], creditUsed = [1, 10 ^ 18]\<rparr> \<and>
   is_double js_1e_18 \<and> is_double 2 \<and> is_double 1 \<and>
   nearest_wei 1 = 10 ^ 18 \<and>
   parseFloat (formatEther (10 ^ 18 - 1)) = 1 \<and>
   nearest_wei 1 < sum_list [1, 10 ^ 18]"
  by (intro conjI run_drift doubles) (simp_all add: number_defs)

text \<open>
  Claim C8 against the code. For one asset with a fee of one wei and a credit of 5 (ether,
  as \<^verbatim>\<open>processNfts\<close> reads it), the single-asset branch of \<^verbatim>\<open>checkoutNFTs\<close> attaches the
  same value, one wei, but passes the Number 5 itself as the credit argument, while
  \<^verbatim>\<open>processNfts\<close> on the one-element list gives a credit of one wei, capped by the fee.
\<close>

theorem single_asset_path_differs:
  "checkoutNFTs ''proxy'' ''vault'' (Some [\<lparr>address = ''a'', tokenId = 1, fee = js_1e_18\<rparr>]) 5 =
     Inr (Some [\<lparr>tx_from = ''proxy'', tx_to = ''vault'', tx_value = 1,
                 tx_data = Withdraw ''a'' 1 (Number 5)\<rparr>]) \<and>
   processNfts [\<lparr>address = ''a'', tokenId = 1, fee = js_1e_18\<rparr>] 5 =
     Inr \<lparr>totalFee = 1, nftAddresses = [''a''], tokenIds = [1],
          values = [1], creditUsed = [1]\<rparr>"
proof (rule conjI [OF _ run_single_5])
  show "checkoutNFTs ''proxy'' ''vault'' (Some [\<lparr>address = ''a'', tokenId = 1, fee = js_1e_18\<rparr>]) 5 =
     Inr (Some [\<lparr>tx_from = ''proxy'', tx_to = ''vault'', tx_value = 1,
                 tx_data = Withdraw ''a'' 1 (Number 5)\<rparr>])"
    by (simp add: checkoutNFTs_def number_defs js_1e_18_value)
qed

section \<open>Concrete runs of the retry loops and of the page walk\<close>

text \<open>The two retry loops are unfolded one iteration at a time.\<close>

declare exponentialBackoff_loop.simps [simp del]

declare getTotalWalletNfts_loop.simps [simp del]

lemma annotate_flaky:
  "annotate (flaky k) \<lparr>contract = ''c'', token = t\<rparr> =
     ([GetPrice ''c'' t, GetValue ''c'' t, GetTokenId ''c'' t, GetLockedTill (int t)],
      if t = 10 \<and> k < 2 then Inl (CallFailed ''getLockedTill'')
      else Inr (\<lparr>m_address = ''c'', m_tokenId = t, m_price = 0, m_value = 0, zzVaulted = False\<rparr>, 0))"
  by (simp add: annotate_def repackageMetadata_def flaky_def formatEther_def toNumber_def Let_def)

lemma index_flaky:
  "getNftsForOwner (flaky k) w = Inr (map (\<lambda>t. \<lparr>contract = ''c'', token = t\<rparr>) [1, 2, 3, 4, 5, 6, 7, 8, 9, 10])"
  by (simp add: flaky_def)

lemma try_flaky:
  "try_count (flaky k) ''w'' r ow = (if k < 2 then (r, ow + 9, Some (CallFailed ''getLockedTill'')) else (r, ow + 10, None))"
  by (simp add: try_count_def index_flaky annotate_flaky)

lemma total_eval: "getTotalWalletNfts flaky (Some ''w'') ''owned'' = Inr 28"
  by (simp add: getTotalWalletNfts_def falsy_def getTotalWalletNfts_loop.simps try_flaky)

lemma annotate_chain25:
  "annotate chain25 \<lparr>contract = ''c'', token = t\<rparr> =
     ([GetPrice ''c'' t, GetValue ''c'' t, GetTokenId ''c'' t, GetLockedTill (int t)],
      Inr (\<lparr>m_address = ''c'', m_tokenId = t, m_price = 0, m_value = 0, zzVaulted = False\<rparr>,
           if even t then 1700000000 else 0))"
  by (simp add: annotate_def repackageMetadata_def chain25_def formatEther_def toNumber_def Let_def)

lemma index_chain25:
  "getNftsForOwner chain25 w = Inr (map (\<lambda>t. \<lparr>contract = ''c'', token = t\<rparr>)
          [1, 2, 3, 4, 5, 6, 7, 8, 9, 10, 11, 12, 13, 14, 15, 16, 17, 18, 19, 20, 21, 22, 23, 24, 25])"
  by (simp add: chain25_def)

lemma page2_eval:
  "getWalletNfts chain25 (Some ''w'') 2 =
     (concat (map (\<lambda>t. [GetPrice ''c'' t, GetValue ''c'' t, GetTokenId ''c'' t, GetLockedTill (int t)])
                [13, 14, 15, 16, 17, 18, 19, 20, 21, 22, 23, 24]),
      Inr (RentalsDeposits
            (map (\<lambda>t. (\<lparr>m_address = ''c'', m_tokenId = t, m_price = 0, m_value = 0, zzVaulted = False\<rparr>, 1700000000))
                 [14, 16, 18, 20, 22, 24])
            (map (\<lambda>t. \<lparr>m_address = ''c'', m_tokenId = t, m_price = 0, m_value = 0, zzVaulted = False\<rparr>)
                 [13, 15, 17, 19, 21, 23])))"
  by (simp add: getWalletNfts_def falsy_def index_chain25 annotate_chain25 page_of_def pageSize_def Let_def)

section \<open>The retry bound of \<^verbatim>\<open>exponentialBackoff\<close>\<close>

text \<open>
  The loop from iteration \<open>i\<close> on, when the fetch first succeeds in iteration \<open>k\<close>, and when it
  never does.
\<close>

lemma backoff_loop_success:
  assumes "k \<le> maxRetries" and "fetchFn k = Inr result"
  shows "i \<le> k \<Longrightarrow> (\<forall>j. i \<le> j \<and> j < k \<longrightarrow> isl (fetchFn j)) \<Longrightarrow>
         exponentialBackoff_loop fetchFn i b =
           (Some (formatEther (case result of None \<Rightarrow> 0 | Some r \<Rightarrow> r)),
            \<lparr>fetches = fetches b + (k - i) + 1, waits = waits b + (k - i), logged = logged b\<rparr>)"
proof (induction "k - i" arbitrary: i b)
  case 0
  then have "i = k" by simp
  with assms show ?case
    by (subst exponentialBackoff_loop.simps) simp
next
  case (Suc d)
  then have lt: "i < k" and d: "d = k - (i + 1)" and le: "i + 1 \<le> k" by simp_all
  from Suc.prems(2) lt have "isl (fetchFn i)" by simp
  then obtain e where e: "fetchFn i = Inl e" by (cases "fetchFn i") simp_all
  have rest: "\<forall>j. i + 1 \<le> j \<and> j < k \<longrightarrow> isl (fetchFn j)" using Suc.prems(2) by simp
  from lt assms(1) have i: "i \<le> maxRetries" "i < maxRetries" by simp_all
  have "exponentialBackoff_loop fetchFn i b =
          exponentialBackoff_loop fetchFn (i + 1) (b\<lparr>fetches := fetches b + 1, waits := waits b + 1\<rparr>)"
    using e i by (subst exponentialBackoff_loop.simps) simp
  also have "\<dots> = (Some (formatEther (case result of None \<Rightarrow> 0 | Some r \<Rightarrow> r)),
            \<lparr>fetches = fetches b + (k - i) + 1, waits = waits b + (k - i), logged = logged b\<rparr>)"
    using Suc.hyps(1) [OF d le rest, of "b\<lparr>fetches := fetches b + 1, waits := waits b + 1\<rparr>"] lt
    by simp arith
  finally show ?case .
qed

lemma backoff_loop_exhausted:
  assumes "\<forall>j\<le>maxRetries. fetchFn j = Inl (err j)"
  shows "i \<le> maxRetries \<Longrightarrow>
         exponentialBackoff_loop fetchFn i b =
           (None, \<lparr>fetches = fetches b + (maxRetries - i) + 1, waits = waits b + (maxRetries - i),
                   logged = Some (err maxRetries)\<rparr>)"
proof (induction "maxRetries - i" arbitrary: i b)
  case 0
  then have i: "i = maxRetries" by simp
  from assms have e: "fetchFn maxRetries = Inl (err maxRetries)" by simp
  have "exponentialBackoff_loop fetchFn maxRetries b =
          exponentialBackoff_loop fetchFn (maxRetries + 1)
            (b\<lparr>fetches := fetches b + 1, logged := Some (err maxRetries)\<rparr>)"
    using e by (subst exponentialBackoff_loop.simps) simp
  also have "\<dots> = (None, b\<lparr>fetches := fetches b + 1, logged := Some (err maxRetries)\<rparr>)"
    by (subst exponentialBackoff_loop.simps) simp
  finally show ?case using i by simp
next
  case (Suc d)
  then have lt: "i < maxRetries" and d: "d = maxRetries - (i + 1)" and le: "i + 1 \<le> maxRetries"
    by simp_all
  from assms lt have e: "fetchFn i = Inl (err i)" by simp
  have "exponentialBackoff_loop fetchFn i b =
          exponentialBackoff_loop fetchFn (i + 1) (b\<lparr>fetches := fetches b + 1, waits := waits b + 1\<rparr>)"
    using e lt by (subst exponentialBackoff_loop.simps) simp
  also have "\<dots> = (None, \<lparr>fetches = fetches b + (maxRetries - i) + 1, waits = waits b + (maxRetries - i),
                   logged = Some (err maxRetries)\<rparr>)"
    using Suc.hyps(1) [OF d le, of "b\<lparr>fetches := fetches b + 1, waits := waits b + 1\<rparr>"] lt
    by simp arith
  finally show ?case .
qed

text \<open>
  Claim C7, as amended. \<^verbatim>\<open>exponentialBackoff\<close> makes up to six attempts, the first and
  \<^verbatim>\<open>maxRetries = 5\<close> more. A fetch that fails \<open>k \<le> 5\<close> times and then succeeds is attempted
  \<open>k + 1\<close> times and its formatted value is returned: after four failures the fifth attempt
  succeeds. A fetch that fails six times is attempted six times; the function then returns
  \<^verbatim>\<open>null\<close>, the last error being printed, not thrown, and no seventh attempt is made.
\<close>

theorem six_attempts_then_null:
  "((\<forall>j<k. isl (f j)) \<and> f k = Inr result \<and> k \<le> 5 \<longrightarrow>
      exponentialBackoff f =
        (Some (formatEther (case result of None \<Rightarrow> 0 | Some r \<Rightarrow> r)),
         \<lparr>fetches = k + 1, waits = k, logged = None\<rparr>)) \<and>
   ((\<forall>j\<le>5. g j = Inl (err j)) \<longrightarrow>
      exponentialBackoff g = (None, \<lparr>fetches = 6, waits = 5, logged = Some (err 5)\<rparr>))"
proof (intro conjI impI)
  assume a: "(\<forall>j<k. isl (f j)) \<and> f k = Inr result \<and> k \<le> 5"
  then have "k \<le> maxRetries" and "f k = Inr result" and "\<forall>j. 0 \<le> j \<and> j < k \<longrightarrow> isl (f j)"
    by (simp_all add: maxRetries_def)
  from backoff_loop_success [OF this(1,2) _ this(3), of "\<lparr>fetches = 0, waits = 0, logged = None\<rparr>"]
  show "exponentialBackoff f =
        (Some (formatEther (case result of None \<Rightarrow> 0 | Some r \<Rightarrow> r)),
         \<lparr>fetches = k + 1, waits = k, logged = None\<rparr>)"
    by (simp add: exponentialBackoff_def)
next
  assume "\<forall>j\<le>5. g j = Inl (err j)"
  then have "\<forall>j\<le>maxRetries. g j = Inl (err j)" by (simp add: maxRetries_def)
  from backoff_loop_exhausted [OF this, of 0 "\<lparr>fetches = 0, waits = 0, logged = None\<rparr>"]
  show "exponentialBackoff g = (None, \<lparr>fetches = 6, waits = 5, logged = Some (err 5)\<rparr>)"
    by (simp add: exponentialBackoff_def maxRetries_def)
qed

text \<open>
  The theorem at a fetch that fails four times and then returns 7 wei, and at a fetch that
  always fails.
\<close>

theorem six_attempts_then_null_witness:
  "exponentialBackoff (\<lambda>i. if i < 4 then Inl (CallFailed ''rpc'') else Inr (Some 7)) =
     (Some (formatEther 7), \<lparr>fetches = 5, waits = 4, logged = None\<rparr>) \<and>
   exponentialBackoff (\<lambda>i. Inl (CallFailed ''rpc'')) =
     (None, \<lparr>fetches = 6, waits = 5, logged = Some (CallFailed ''rpc'')\<rparr>)"
  using six_attempts_then_null
    [of 4 "\<lambda>i. if i < 4 then Inl (CallFailed ''rpc'') else Inr (Some 7)" "Some 7"
        "\<lambda>i. Inl (CallFailed ''rpc'')" "\<lambda>i. CallFailed ''rpc''"]
  by simp

text \<open>
  Claim C7 as stated fails at a fetch that always fails: the sixth attempt is made, and the
  result is \<^verbatim>\<open>null\<close> with the error printed.
\<close>

theorem sixth_attempt_counterexample:
  "exponentialBackoff (\<lambda>i. Inl (CallFailed ''rpc'')) =
     (None, \<lparr>fetches = 6, waits = 5, logged = Some (CallFailed ''rpc'')\<rparr>)"
  by (simp add: exponentialBackoff_def exponentialBackoff_loop.simps maxRetries_def)

section \<open>The page walk\<close>

text \<open>
  The page of the running count, before and inside the requested page.
\<close>

lemma page_of_skip: "1 \<le> page \<Longrightarrow> c < (page - 1) * pageSize \<Longrightarrow> page_of (c + 1) \<noteq> page"
proof -
  assume p: "1 \<le> page" and c: "c < (page - 1) * pageSize"
  then have "c + 12 < page * 12" by (simp add: pageSize_def)
  then have "(c + 12) div 12 < page" by (rule less_mult_imp_div_less)
  then show ?thesis by (simp add: page_of_def pageSize_def)
qed

lemma page_of_in: "1 \<le> page \<Longrightarrow> k < pageSize \<Longrightarrow> page_of ((page - 1) * pageSize + k + 1) = page"
  by (simp add: page_of_def pageSize_def)

lemma loop_skip:
  assumes "1 \<le> page"
  shows "count w + length xs \<le> (page - 1) * pageSize \<Longrightarrow>
         getWalletNfts_loop env page w (xs @ ys) =
           getWalletNfts_loop env page (w\<lparr>count := count w + length xs\<rparr>) ys"
proof (induction xs arbitrary: w)
  case Nil
  then show ?case by simp
next
  case (Cons n xs)
  from Cons.prems have "count w < (page - 1) * pageSize" by simp
  from page_of_skip [OF assms this] have skip: "page_of (count w + 1) \<noteq> page" .
  from Cons.prems have "count (w\<lparr>count := count w + 1\<rparr>) + length xs \<le> (page - 1) * pageSize"
    by simp
  from Cons.IH [OF this] skip show ?case by (simp add: Let_def)
qed

lemma loop_page:
  assumes "1 \<le> page"
  shows "count w = (page - 1) * pageSize + k \<Longrightarrow>
         length (deposits w) + length (rentals w) = k \<Longrightarrow>
         map (\<lambda>n. snd (annotate env n)) xs = map Inr as \<Longrightarrow>
         k + length xs \<le> pageSize \<Longrightarrow>
         getWalletNfts_loop env page w (xs @ ys) =
           (if k + length xs = pageSize \<and> xs \<noteq> []
            then (w\<lparr>count := count w + length xs,
                     deposits := deposits w @ map fst (filter (\<lambda>(m, e). e = 0) as),
                     rentals := rentals w @ filter (\<lambda>(m, e). e \<noteq> 0) as,
                     calls := calls w @ concat (map (\<lambda>n. fst (annotate env n)) xs)\<rparr>, None)
            else getWalletNfts_loop env page
                   (w\<lparr>count := count w + length xs,
                      deposits := deposits w @ map fst (filter (\<lambda>(m, e). e = 0) as),
                      rentals := rentals w @ filter (\<lambda>(m, e). e \<noteq> 0) as,
                      calls := calls w @ concat (map (\<lambda>n. fst (annotate env n)) xs)\<rparr>) ys)"
proof (induction xs arbitrary: w k as)
  case Nil
  from Nil.prems(3) have as: "as = []" by simp
  show ?case by (simp add: as)
next
  case (Cons n xs)
  from Cons.prems(3) obtain a as' where as: "as = a # as'" and a: "snd (annotate env n) = Inr a"
    and rest: "map (\<lambda>n. snd (annotate env n)) xs = map Inr as'"
    by (cases as) auto
  obtain m e where me: "a = (m, e)" by (cases a)
  obtain cs where ann: "annotate env n = (cs, Inr (m, e))"
    using a me by (cases "annotate env n") simp
  from Cons.prems(4) have k: "k < pageSize" by simp
  from page_of_in [OF assms k] Cons.prems(1) have here: "page_of (count w + 1) = page" by simp
  show ?case
  proof (cases "e = 0")
    case True
    let ?w2 = "w\<lparr>count := count w + 1, deposits := deposits w @ [m], calls := calls w @ cs\<rparr>"
    show ?thesis
    proof (cases "k + 1 = pageSize")
      case full: True
      from Cons.prems(4) have "k + 1 + length xs \<le> pageSize" by simp
      with full have "length xs = 0" by arith
      then have "xs = []" by simp
      with rest have "as' = []" by simp
      with full here ann True \<open>xs = []\<close> Cons.prems(2) show ?thesis
        by (simp add: Let_def as me)
    next
      case more: False
      have c2: "count ?w2 = (page - 1) * pageSize + (k + 1)" using Cons.prems(1) by simp
      have l2: "length (deposits ?w2) + length (rentals ?w2) = k + 1" using Cons.prems(2) by simp
      have b2: "k + 1 + length xs \<le> pageSize" using Cons.prems(4) by simp
      from Cons.IH [OF c2 l2 rest b2] more here ann True Cons.prems(2) show ?thesis
        by (simp add: Let_def as me)
    qed
  next
    case False
    let ?w2 = "w\<lparr>count := count w + 1, rentals := rentals w @ [(m, e)], calls := calls w @ cs\<rparr>"
    show ?thesis
    proof (cases "k + 1 = pageSize")
      case full: True
      from Cons.prems(4) have "k + 1 + length xs \<le> pageSize" by simp
      with full have "length xs = 0" by arith
      then have "xs = []" by simp
      with rest have "as' = []" by simp
      with full here ann False \<open>xs = []\<close> Cons.prems(2) show ?thesis
        by (simp add: Let_def as me)
    next
      case more: False
      have c2: "count ?w2 = (page - 1) * pageSize + (k + 1)" using Cons.prems(1) by simp
      have l2: "length (deposits ?w2) + length (rentals ?w2) = k + 1" using Cons.prems(2) by simp
      have b2: "k + 1 + length xs \<le> pageSize" using Cons.prems(4) by simp
      from Cons.IH [OF c2 l2 rest b2] more here ann False Cons.prems(2) show ?thesis
        by (simp add: Let_def as me)
    qed
  qed
qed

section \<open>The enumerator claims\<close>

lemma loop_whole:
  assumes page: "1 \<le> page"
    and as: "map (\<lambda>n. snd (annotate env n)) (take pageSize (drop ((page - 1) * pageSize) items)) = map Inr as"
  shows "\<exists>c. getWalletNfts_loop env page \<lparr>count = 0, deposits = [], rentals = [], calls = []\<rparr> items =
           (\<lparr>count = c,
             deposits = map fst (filter (\<lambda>(m, e). e = 0) as),
             rentals = filter (\<lambda>(m, e). e \<noteq> 0) as,
             calls = concat (map (\<lambda>n. fst (annotate env n))
                       (take pageSize (drop ((page - 1) * pageSize) items)))\<rparr>, None)"
proof -
  let ?s = "(page - 1) * pageSize"
  let ?w0 = "\<lparr>count = 0, deposits = [], rentals = [], calls = []\<rparr>"
  let ?pre = "take ?s items"
  let ?mid = "take pageSize (drop ?s items)"
  let ?post = "drop pageSize (drop ?s items)"
  have split: "items = ?pre @ (?mid @ ?post)" by (simp only: append_take_drop_id)
  have "count ?w0 + length ?pre \<le> ?s" by simp
  from loop_skip [OF page this, of env "?mid @ ?post"] split
  have skip: "getWalletNfts_loop env page ?w0 items =
          getWalletNfts_loop env page (?w0\<lparr>count := length ?pre\<rparr>) (?mid @ ?post)"
    by simp
  show ?thesis
  proof (cases "?s \<le> length items")
    case True
    then have c: "count (?w0\<lparr>count := length ?pre\<rparr>) = ?s + 0" by simp
    have l: "length (deposits (?w0\<lparr>count := length ?pre\<rparr>)) + length (rentals (?w0\<lparr>count := length ?pre\<rparr>)) = 0"
      by simp
    have b: "0 + length ?mid \<le> pageSize" by simp
    note step = loop_page [OF page c l as b, of ?post]
    show ?thesis
    proof (cases "length ?mid = pageSize")
      case full: True
      then have "?mid \<noteq> []" by (auto simp add: pageSize_def)
      with step full skip show ?thesis by simp
    next
      case False
      then have "length (drop ?s items) < pageSize" by simp
      then have "?post = []" by simp
      with step False skip show ?thesis by simp
    qed
  next
    case False
    then have d: "drop ?s items = []" by simp
    from as have "as = []" unfolding d by simp
    with skip show ?thesis unfolding d by simp
  qed
qed

text \<open>
  Claim C4, as amended. For a truthy owner, a page number from 1 on and an index snapshot
  \<open>items\<close>, let the items of the page be those at the positions
  \<open>(page - 1) * pageSize\<close> up to \<open>page * pageSize\<close>, the ones whose running count has
  \<^verbatim>\<open>Math.ceil(count / pageSize)\<close> equal to the page. When their annotations succeed,
  \<^verbatim>\<open>getWalletNfts\<close> makes the calls of exactly these items, once each and in index order (the
  items of earlier pages are counted, not annotated), and returns them classified into
  rentals and deposits in index order. Nothing after the page is looked at: for page 2 of 25
  items with page size 12 the items 13 to 24 are returned and annotated, not 1 to 12 and not
  25.
\<close>

theorem page_items_annotated_and_returned:
  assumes "getNftsForOwner env w = Inr items" and "w \<noteq> []" and "1 \<le> page"
    and "map (\<lambda>n. snd (annotate env n)) (take pageSize (drop ((page - 1) * pageSize) items)) =
           map Inr as"
  shows "getWalletNfts env (Some w) page =
           (concat (map (\<lambda>n. fst (annotate env n))
              (take pageSize (drop ((page - 1) * pageSize) items))),
            Inr (RentalsDeposits (filter (\<lambda>(m, e). e \<noteq> 0) as)
                                 (map fst (filter (\<lambda>(m, e). e = 0) as))))"
proof -
  from loop_whole [OF assms(3) assms(4)] obtain c where
    "getWalletNfts_loop env page \<lparr>count = 0, deposits = [], rentals = [], calls = []\<rparr> items =
           (\<lparr>count = c,
             deposits = map fst (filter (\<lambda>(m, e). e = 0) as),
             rentals = filter (\<lambda>(m, e). e \<noteq> 0) as,
             calls = concat (map (\<lambda>n. fst (annotate env n))
                       (take pageSize (drop ((page - 1) * pageSize) items)))\<rparr>, None)"
    by blast
  with assms(1,2) show ?thesis by (simp add: getWalletNfts_def falsy_def)
qed

text \<open>
  The theorem at page 2 of the index of 25 items.
\<close>

theorem page_items_annotated_and_returned_witness:
  "getWalletNfts chain25 (Some ''w'') 2 =
     (concat (map (\<lambda>t. [GetPrice ''c'' t, GetValue ''c'' t, GetTokenId ''c'' t, GetLockedTill (int t)])
                [13, 14, 15, 16, 17, 18, 19, 20, 21, 22, 23, 24]),
      Inr (RentalsDeposits
            (map (\<lambda>t. (\<lparr>m_address = ''c'', m_tokenId = t, m_price = 0, m_value = 0, zzVaulted = False\<rparr>, 1700000000))
                 [14, 16, 18, 20, 22, 24])
            (map (\<lambda>t. \<lparr>m_address = ''c'', m_tokenId = t, m_price = 0, m_value = 0, zzVaulted = False\<rparr>)
                 [13, 15, 17, 19, 21, 23])))"
proof -
  have w: "''w'' \<noteq> []" and p: "(1::nat) \<le> 2" by simp_all
  have as: "map (\<lambda>n. snd (annotate chain25 n))
              (take pageSize (drop ((2 - 1) * pageSize)
                 (map (\<lambda>t. \<lparr>contract = ''c'', token = t\<rparr>)
                    [1, 2, 3, 4, 5, 6, 7, 8, 9, 10, 11, 12, 13, 14, 15, 16, 17, 18, 19, 20, 21, 22, 23, 24, 25]))) =
            map Inr (map (\<lambda>t. (\<lparr>m_address = ''c'', m_tokenId = t, m_price = 0, m_value = 0, zzVaulted = False\<rparr>,
                                 if even t then 1700000000 else 0))
                      [13, 14, 15, 16, 17, 18, 19, 20, 21, 22, 23, 24])"
    by (simp add: pageSize_def annotate_chain25)
  from page_items_annotated_and_returned [OF index_chain25 w p as]
  show ?thesis by (simp add: pageSize_def annotate_chain25)
qed

text \<open>
  Claim C4 as stated fails on that run: the calls made are those of the items 13 to 24, and
  neither lookup is made for item 1 or item 12.
\<close>

theorem earlier_pages_not_annotated:
  "fst (getWalletNfts chain25 (Some ''w'') 2) =
     concat (map (\<lambda>t. [GetPrice ''c'' t, GetValue ''c'' t, GetTokenId ''c'' t, GetLockedTill (int t)])
                [13, 14, 15, 16, 17, 18, 19, 20, 21, 22, 23, 24]) \<and>
   GetTokenId ''c'' 1 \<notin> set (fst (getWalletNfts chain25 (Some ''w'') 2)) \<and>
   GetLockedTill 1 \<notin> set (fst (getWalletNfts chain25 (Some ''w'') 2)) \<and>
   GetTokenId ''c'' 12 \<notin> set (fst (getWalletNfts chain25 (Some ''w'') 2)) \<and>
   GetLockedTill 12 \<notin> set (fst (getWalletNfts chain25 (Some ''w'') 2))"
  by (simp add: page2_eval)

text \<open>
  Claim C10. For a falsy owner \<^verbatim>\<open>getWalletNfts\<close> returns the array \<^verbatim>\<open>[[], []]\<close>, making no
  call, and destructuring \<^verbatim>\<open>{ rentals, deposits }\<close> from it gives two undefined fields; for a
  truthy owner every result it returns is an object with both fields.
\<close>

theorem falsy_owner_result_shape:
  "(falsy a \<longrightarrow>
      getWalletNfts env a page = ([], Inr (ArrayOfArrays [[], []])) \<and>
      destructure (ArrayOfArrays [[], []]) = (None, None)) \<and>
   (\<not> falsy b \<and> getWalletNfts env b page = (cs, Inr res) \<longrightarrow>
      (\<exists>r d. res = RentalsDeposits r d \<and> destructure res = (Some r, Some d)))"
  by (auto simp add: getWalletNfts_def split: sum.splits prod.splits option.splits)

text \<open>
  The theorem at a missing owner and at the owner \<^verbatim>\<open>w\<close> of the index of 25 items.
\<close>

theorem falsy_owner_result_shape_witness:
  "getWalletNfts chain25 None 2 = ([], Inr (ArrayOfArrays [[], []])) \<and>
   destructure (ArrayOfArrays [[], []]) = (None, None) \<and>
   (\<exists>r d. snd (getWalletNfts chain25 (Some ''w'') 2) = Inr (RentalsDeposits r d) \<and>
          destructure (RentalsDeposits r d) = (Some r, Some d))"
proof -
  have f: "falsy None" and t: "\<not> falsy (Some ''w'')" by (simp_all add: falsy_def)
  note inst = falsy_owner_result_shape
    [of None chain25 2 "Some ''w''"
        "fst (getWalletNfts chain25 (Some ''w'') 2)"
        "projr (snd (getWalletNfts chain25 (Some ''w'') 2))"]
  have r: "getWalletNfts chain25 (Some ''w'') 2 =
             (fst (getWalletNfts chain25 (Some ''w'') 2),
              Inr (projr (snd (getWalletNfts chain25 (Some ''w'') 2))))"
    by (simp add: page2_eval)
  from inst f t r show ?thesis by (simp add: page2_eval)
qed

text \<open>
  A pass that starts from counters \<open>r\<close> and \<open>ow\<close> adds its own counts to them, so a failed
  first pass followed by a complete second pass returns the sum of both.
\<close>

lemma count_loop_adds:
  "count_loop env r ow xs =
     (case count_loop env 0 0 xs of (r', ow', e) \<Rightarrow> (r + r', ow + ow', e))"
proof (induction xs arbitrary: r ow)
  case Nil
  then show ?case by simp
next
  case (Cons n xs)
  show ?case
  proof (cases "snd (annotate env n)")
    case (Inl e)
    then show ?thesis by simp
  next
    case (Inr a)
    obtain m t where a: "a = (m, t)" by (cases a)
    show ?thesis
      using Cons.IH [of r "ow + 1"] Cons.IH [of "r + 1" ow] Cons.IH [of 0 1] Cons.IH [of 1 0]
      by (simp add: Inr a split: prod.splits)
  qed
qed

lemma try_count_adds:
  "try_count env w r ow =
     (case try_count env w 0 0 of (r', ow', e) \<Rightarrow> (r + r', ow + ow', e))"
  using count_loop_adds [of env r ow]
  by (simp add: try_count_def split: sum.splits)

lemma failed_pass_is_added:
  assumes "w \<noteq> []"
    and "try_count (envs 0) w 0 0 = (r0, o0, Some e)"
    and "try_count (envs 1) w 0 0 = (r1, o1, None)"
  shows "getTotalWalletNfts envs (Some w) type =
           Inr (if type = ''rented'' then r0 + r1 else o0 + o1)"
proof -
  have "try_count (envs 1) w r0 o0 = (r0 + r1, o0 + o1, None)"
    using try_count_adds [of "envs 1" w r0 o0] assms(3) by simp
  with assms(1,2) show ?thesis
    by (simp add: getTotalWalletNfts_def falsy_def getTotalWalletNfts_loop.simps)
qed

text \<open>
  Claim C2 against the code. The counters are declared outside the retry loop and are not
  reset when a pass fails. On an index of 10 available items whose 10th annotation fails on
  the first two passes, each failed pass leaves 9 in the counter and the third pass adds 10:
  the function returns 28, where one complete pass counts 10.
\<close>

theorem counts_kept_across_retries:
  "getTotalWalletNfts flaky (Some ''w'') ''owned'' = Inr 28 \<and>
   try_count (flaky 0) ''w'' 0 0 = (0, 9, Some (CallFailed ''getLockedTill'')) \<and>
   try_count (flaky 1) ''w'' 0 0 = (0, 9, Some (CallFailed ''getLockedTill'')) \<and>
   try_count (flaky 2) ''w'' 0 0 = (0, 10, None)"
  by (simp add: total_eval try_flaky)

end
